theory Spec2Isabelle
  imports Complex_Main "HOL-Library.Sublist"
begin

section \<open>Policy constants\<close>

definition CHUNK_SIZE :: nat where "CHUNK_SIZE = 2000"
definition CHUNK_OVERLAP :: nat where "CHUNK_OVERLAP = 200"
definition MAX_RETRIES :: nat where "MAX_RETRIES = 3"
definition RETRY_DELAY :: nat where "RETRY_DELAY = 2000"
definition RATE_LIMIT_DELAY :: nat where "RATE_LIMIT_DELAY = 5000"
definition BATCH_SIZE :: nat where "BATCH_SIZE = 2"

section \<open>JavaScript values that the pipeline handles\<close>

text \<open>
  The objects that travel through the summarisation path are parsed JSON and object
  literals. An object is a list of properties, name and value, read by name; the values
  of the model are strings and arrays of strings (what an extraction result and the
  merged document hold). Numbers, booleans, \<open>null\<close> and nested objects as property
  values are outside the model. Strings are ASCII: one \<open>char\<close> is one UTF-16 code unit.
\<close>

datatype js_value = Str string | Arr "string list"

type_synonym js_object = "(string \<times> js_value) list"

text \<open>The property read \<open>obj.name\<close>: \<open>None\<close> is \<open>undefined\<close>.\<close>

definition lookup :: "js_object \<Rightarrow> string \<Rightarrow> js_value option" where
  "lookup obj name = map_of obj name"

text \<open>\<open>if (v)\<close> on a value: the empty string is falsy, every array (also the empty
  one) is truthy.\<close>

fun truthy :: "js_value \<Rightarrow> bool" where
  "truthy (Str s) = (s \<noteq> [])"
| "truthy (Arr xs) = True"

text \<open>The spread \<open>...v\<close>: an array yields its elements, a string its characters.\<close>

fun spread :: "js_value \<Rightarrow> string list" where
  "spread (Arr xs) = xs"
| "spread (Str s) = map (\<lambda>c. [c]) s"

text \<open>\<open>if (v) arr.push(...v)\<close> on a property read \<open>v\<close>; \<open>undefined\<close> is falsy.\<close>

fun push_if :: "string list \<Rightarrow> js_value option \<Rightarrow> string list" where
  "push_if arr None = arr"
| "push_if arr (Some v) = (if truthy v then arr @ spread v else arr)"

text \<open>\<open>[...new Set(xs)]\<close>: a Set keeps its elements in insertion order and ignores the
  insertion of an element it already holds; strings and numbers are compared by value.\<close>

definition Set_add :: "'a list \<Rightarrow> 'a \<Rightarrow> 'a list" where
  "Set_add seen x = (if x \<in> set seen then seen else seen @ [x])"

definition new_Set :: "'a list \<Rightarrow> 'a list" where
  "new_Set xs = foldl Set_add [] xs"

section \<open>Merger: mergeProcessedChunks\<close>

record AggregateDocument =
  title :: string
  prerequisites :: "string list"
  warnings :: "string list"
  steps :: "string list"

text \<open>The body of the \<open>forEach\<close> callback: three guarded pushes on the accumulator.\<close>

definition merge_chunk :: "AggregateDocument \<Rightarrow> js_object \<Rightarrow> AggregateDocument" where
  "merge_chunk merged chunk =
     merged\<lparr>prerequisites := push_if (prerequisites merged) (lookup chunk ''key_points''),
            warnings := push_if (warnings merged) (lookup chunk ''warnings''),
            steps := push_if (steps merged) (lookup chunk ''steps'')\<rparr>"

definition mergeProcessedChunks :: "js_object list \<Rightarrow> AggregateDocument" where
  "mergeProcessedChunks processedChunks =
     (let merged = foldl merge_chunk
            \<lparr>title = ''Technical Manual Summary'', prerequisites = [], warnings = [], steps = []\<rparr>
            processedChunks
      in merged\<lparr>prerequisites := new_Set (prerequisites merged),
                warnings := new_Set (warnings merged),
                steps := new_Set (steps merged)\<rparr>)"

text \<open>The object that \<open>mergeProcessedChunks\<close> returns, with the properties of the
  object literal it is built from.\<close>

definition as_object :: "AggregateDocument \<Rightarrow> js_object" where
  "as_object doc = [(''title'', Str (title doc)),
                    (''prerequisites'', Arr (prerequisites doc)),
                    (''warnings'', Arr (warnings doc)),
                    (''steps'', Arr (steps doc))]"

text \<open>The entries that one chunk contributes to a field: nothing when the property is
  absent or falsy.\<close>

definition entries :: "string \<Rightarrow> js_object \<Rightarrow> string list" where
  "entries name chunk = (case lookup chunk name of None \<Rightarrow> [] | Some v \<Rightarrow> if truthy v then spread v else [])"

text \<open>First-seen order, deduplicated by equality, as the specification words it: an entry
  stays where it first occurs and its later occurrences are removed.\<close>

fun first_seen :: "'a list \<Rightarrow> 'a list" where
  "first_seen [] = []"
| "first_seen (x # xs) = x # first_seen (filter (\<lambda>y. y \<noteq> x) xs)"

section \<open>BatchOrchestrator: processChunksInBatches\<close>

text \<open>
  What one pass through the \<open>try\<close> block of a chunk's retry loop can end in:
  \<^item> \<open>RateLimited\<close>: the response has status 429;
  \<^item> \<open>Failure m\<close>: an exception with message \<open>m\<close> is thrown inside the \<open>try\<close> (the fetch
    rejects, the status is not OK, the body is not JSON, it has no candidate text, the text
    has no fenced JSON block, the block does not parse);
  \<^item> \<open>Parsed d\<close>: \<open>JSON.parse(jsonString)\<close> returns \<open>d\<close>.
  A parsed value is an object, or one of the falsy JSON values \<open>null\<close>, \<open>false\<close>, \<open>0\<close>,
  \<open>""\<close>. (A truthy value that is not an object has none of the properties the merger
  reads, and is the empty object here.)
\<close>

datatype parsed = Falsy | Obj js_object

datatype reply = RateLimited | Failure string | Parsed parsed

text \<open>The remote service, as one execution sees it: the reply to call number \<open>k\<close>
  (counted from 0) made for the chunk at position \<open>i\<close> of the input, whose text is \<open>c\<close>,
  is \<open>client i c k\<close>. The delays between calls take time and change nothing else; time
  is not part of the model.\<close>

type_synonym client = "nat \<Rightarrow> string \<Rightarrow> nat \<Rightarrow> reply"

datatype 'a promise = Rejected string | Fulfilled 'a

text \<open>
  The retry loop of one chunk, \<open>while (retries < MAX_RETRIES && !success)\<close>. \<open>success\<close>
  is set only on the line before \<open>return data\<close>, so the loop condition is the test on
  \<open>retries\<close>. Every pass that does not leave the function increments \<open>retries\<close> once,
  so the pass entered with \<open>retries = k\<close> makes call number \<open>k\<close>. When the loop ends by
  its condition the async function returns \<open>undefined\<close> (\<open>None\<close>). The first component
  of the result is the number of calls made.
\<close>

function attempt_loop :: "(nat \<Rightarrow> reply) \<Rightarrow> nat \<Rightarrow> nat \<times> parsed option promise" where
  "attempt_loop fetch retries =
     (if retries < MAX_RETRIES then
        (case fetch retries of
           RateLimited \<Rightarrow> attempt_loop fetch (retries + 1)
         | Failure message \<Rightarrow>
             (if retries + 1 = MAX_RETRIES
              then (retries + 1, Rejected (''Failed to process chunk after 3 attempts: '' @ message))
              else attempt_loop fetch (retries + 1))
         | Parsed data \<Rightarrow> (retries + 1, Fulfilled (Some data)))
      else (retries, Fulfilled None))"
  by pat_completeness auto
termination
  by (relation "measure (\<lambda>(fetch, retries). MAX_RETRIES - retries)") auto

text \<open>
  \<open>Promise.all\<close> fulfils with the values in the order of the promises, whatever the order
  in which they settle, and rejects as soon as one of them rejects, with that promise's
  reason. Which promise rejects first is a matter of timing: the model keeps the reasons
  of all the rejected promises, in the order of the promises; the reason the caller gets
  is one of them.
\<close>

definition Promise_all :: "'a promise list \<Rightarrow> string list + 'a list" where
  "Promise_all ps =
     (if [r. Rejected r \<leftarrow> ps] = [] then Inr [v. Fulfilled v \<leftarrow> ps]
      else Inl [r. Rejected r \<leftarrow> ps])"

text \<open>\<open>batchResults.filter(Boolean)\<close>: \<open>undefined\<close> and the falsy parsed values go,
  the objects stay.\<close>

definition filter_Boolean :: "parsed option list \<Rightarrow> js_object list" where
  "filter_Boolean batchResults = [obj. Some (Obj obj) \<leftarrow> batchResults]"

definition totalBatches :: "string list \<Rightarrow> nat" where
  "totalBatches chunks = (length chunks + BATCH_SIZE - 1) div BATCH_SIZE"

text \<open>\<open>chunks.slice(batchStart, batchEnd)\<close>\<close>

definition slice :: "nat \<Rightarrow> nat \<Rightarrow> 'a list \<Rightarrow> 'a list" where
  "slice start end xs = take (end - start) (drop start xs)"

text \<open>The promises of one batch: \<open>batch.map(async (chunk, index) => ...)\<close>, each with the
  number of calls it makes.\<close>

definition batchPromises :: "client \<Rightarrow> nat \<Rightarrow> string list \<Rightarrow> (nat \<times> parsed option promise) list" where
  "batchPromises client batchStart batch =
     map (\<lambda>(index, chunk). attempt_loop (client (batchStart + index) chunk) 0) (enumerate 0 batch)"

text \<open>
  The loop over the batches, from \<open>batchIndex\<close> on, with \<open>processedChunks\<close> as built so
  far. The result pairs the log of the calls (one entry for each chunk of each batch that
  was started: the number of calls made for it) with the outcome: the rejection of
  \<open>Promise.all\<close>, which the \<open>await\<close> rethrows, or the returned array.
\<close>

function batch_loop ::
  "client \<Rightarrow> string list \<Rightarrow> nat \<Rightarrow> js_object list \<Rightarrow> nat list
     \<Rightarrow> nat list \<times> (string list + js_object list)" where
  "batch_loop client chunks batchIndex processedChunks calls =
     (if batchIndex < totalBatches chunks then
        (let batchStart = batchIndex * BATCH_SIZE;
             batchEnd = min (batchStart + BATCH_SIZE) (length chunks);
             batch = slice batchStart batchEnd chunks;
             promises = batchPromises client batchStart batch
         in case Promise_all (map snd promises) of
              Inl reasons \<Rightarrow> (calls @ map fst promises, Inl reasons)
            | Inr batchResults \<Rightarrow>
                batch_loop client chunks (batchIndex + 1)
                  (processedChunks @ filter_Boolean batchResults) (calls @ map fst promises))
      else (calls, Inr processedChunks))"
  by pat_completeness auto
termination
  by (relation "measure (\<lambda>(client, chunks, batchIndex, processedChunks, calls).
        totalBatches chunks - batchIndex)") auto

definition processChunksInBatches ::
  "client \<Rightarrow> string list \<Rightarrow> nat list \<times> (string list + js_object list)" where
  "processChunksInBatches client chunks = batch_loop client chunks 0 [] []"

text \<open>For the statements below: the promise that the orchestrator creates for each chunk of
  the input, with its number of calls, in input order (\<open>batchPromises\<close> over the whole
  input, as if every batch were started).\<close>

definition chunk_promises :: "client \<Rightarrow> string list \<Rightarrow> (nat \<times> parsed option promise) list" where
  "chunk_promises client chunks = batchPromises client 0 chunks"

section \<open>Strings\<close>

text \<open>\<open>toLowerCase\<close> on ASCII text: the letters A to Z move to a to z.\<close>

definition lower_char :: "char \<Rightarrow> char" where
  "lower_char c =
     (if 65 \<le> (of_char c :: nat) \<and> (of_char c :: nat) \<le> 90 then char_of (of_char c + 32 :: nat) else c)"

definition toLowerCase :: "string \<Rightarrow> string" where
  "toLowerCase s = map lower_char s"

text \<open>\<open>s.split(sep)\<close> with a one-character separator: the pieces between the
  separators, empty pieces included; never an empty array.\<close>

fun split_on :: "char \<Rightarrow> string \<Rightarrow> string list" where
  "split_on sep [] = [[]]"
| "split_on sep (c # cs) =
     (if c = sep then [] # split_on sep cs
      else (case split_on sep cs of [] \<Rightarrow> [[c]] | p # ps \<Rightarrow> (c # p) # ps))"

text \<open>\<open>text.includes(term)\<close>: \<open>term\<close> occurs in \<open>text\<close> as a contiguous substring.\<close>

fun str_includes :: "string \<Rightarrow> string \<Rightarrow> bool" where
  "str_includes [] term = (term = [])"
| "str_includes (c # cs) term = (prefix term (c # cs) \<or> str_includes cs term)"

text \<open>The white space of \<open>\s\<close> and of \<open>trim\<close>, within ASCII: tab, line feed, vertical
  tab, form feed, carriage return, space.\<close>

definition is_space :: "char \<Rightarrow> bool" where
  "is_space c = ((of_char c :: nat) \<in> {9, 10, 11, 12, 13, 32})"


definition trim :: "string \<Rightarrow> string" where
  "trim s = rev (dropWhile is_space (rev (dropWhile is_space s)))"

text \<open>\<open>items.join(' ')\<close>\<close>

fun join :: "string \<Rightarrow> string list \<Rightarrow> string" where
  "join sep [] = []"
| "join sep [x] = x"
| "join sep (x # y # ys) = x @ sep @ join sep (y # ys)"

section \<open>Regular expressions\<close>

text \<open>
  \<open>search\<close> compiles every search term with \<open>new RegExp(term, 'g')\<close> and uses the
  result only in \<open>(text.match(re) || []).length\<close>, the number of matches that a global
  match finds in the text. So a compiled expression is, in the model, that counting
  function, and compiling either yields one or throws a SyntaxError.

  The model decides two classes of patterns itself, as ECMAScript does:
  \<^item> a pattern without syntax characters matches itself, and the global match finds its
    occurrences from left to right, each search resuming where the last match ended;
  \<^item> a pattern that begins with one of the quantifier symbols \<open>*\<close>, \<open>+\<close>, \<open>?\<close> has
    nothing to repeat and is a SyntaxError, and so is a pattern, free of backslash and
    bracket, in which \<open>*\<close> or \<open>+\<close> follows one of \<open>*\<close>, \<open>+\<close>, \<open>?\<close> at once.
  What the engine does on any other pattern is the parameter \<open>ext\<close>; every theorem holds
  for every \<open>ext\<close>.
\<close>

datatype regexp = SyntaxError | Compiled "string \<Rightarrow> nat"

type_synonym engine = "string \<Rightarrow> regexp"

definition syntax_characters :: "char list" where
  "syntax_characters =
     [CHR ''^'', CHR ''$'', CHR 0x5C, CHR ''.'', CHR ''*'', CHR ''+'', CHR ''?'', CHR ''('',
      CHR '')'', CHR ''['', CHR '']'', CHR ''{'', CHR ''}'', CHR ''|'']"

definition literal_pattern :: "string \<Rightarrow> bool" where
  "literal_pattern pattern = (\<forall>c \<in> set pattern. c \<notin> set syntax_characters)"

function match_literal :: "string \<Rightarrow> string \<Rightarrow> nat" where
  "match_literal pattern text =
     (if pattern = [] then length text + 1
      else if text = [] then 0
      else if prefix pattern text then 1 + match_literal pattern (drop (length pattern) text)
      else match_literal pattern (tl text))"
  by pat_completeness auto
termination
  by (relation "measure (\<lambda>(pattern, text). length text)") auto

fun repeated_quantifier :: "string \<Rightarrow> bool" where
  "repeated_quantifier (a # b # rest) =
     ((a \<in> set ''*+?'' \<and> b \<in> set ''*+'') \<or> repeated_quantifier (b # rest))"
| "repeated_quantifier rest = False"

definition nothing_to_repeat :: "string \<Rightarrow> bool" where
  "nothing_to_repeat pattern =
     ((case pattern of [] \<Rightarrow> False | c # rest \<Rightarrow> c \<in> set ''*+?'')
      \<or> (CHR 0x5C \<notin> set pattern \<and> CHR ''['' \<notin> set pattern \<and> repeated_quantifier pattern))"

definition RegExp :: "engine \<Rightarrow> string \<Rightarrow> regexp" where
  "RegExp ext pattern =
     (if literal_pattern pattern then Compiled (match_literal pattern)
      else if nothing_to_repeat pattern then SyntaxError
      else ext pattern)"

section \<open>Numbers\<close>

text \<open>
  A score is a JavaScript number. The model keeps \<open>NaN\<close> apart and takes the finite
  numbers as exact rationals: the rounding of the doubles is not modelled. The scores
  are sums and products of small counts, of one quotient of counts and of halves.
\<close>

datatype number = NaN | Num rat

fun num_add :: "number \<Rightarrow> rat \<Rightarrow> number" where
  "num_add NaN r = NaN"
| "num_add (Num a) r = Num (a + r)"

fun num_mul :: "number \<Rightarrow> number \<Rightarrow> number" where
  "num_mul (Num a) (Num b) = Num (a * b)"
| "num_mul a b = NaN"

text \<open>The quotient \<open>found / len\<close> of two counts, \<open>found\<close> being a count among \<open>len\<close>
  many: with \<open>len = 0\<close> it is \<open>0 / 0\<close>, which is \<open>NaN\<close>.\<close>

definition num_div :: "nat \<Rightarrow> nat \<Rightarrow> number" where
  "num_div found len = (if len = 0 then NaN else Num (of_nat found / of_nat len))"

text \<open>\<open>score > 0\<close>: every comparison with \<open>NaN\<close> is false.\<close>

fun positive :: "number \<Rightarrow> bool" where
  "positive NaN = False"
| "positive (Num a) = (0 < a)"

fun num_value :: "number \<Rightarrow> rat" where
  "num_value NaN = 0"
| "num_value (Num a) = a"

section \<open>RelevanceIndex: vectorStore\<close>

record IndexedChunk =
  chunk_text :: string
  chunk_page :: nat
  chunk_embedding :: "rat list"

record Metadata =
  currentFileName :: string
  pageCount :: nat
  totalChunks :: nat

record vectorStore =
  chunks :: "IndexedChunk list"
  embeddings :: "rat list list"
  metadata :: Metadata



record ScoredChunk =
  item_chunk :: string
  item_page :: nat
  item_score :: number

record SearchHit =
  hit_text :: string
  hit_page :: nat
  hit_score :: number

datatype error = InvalidRegExp string

text \<open>\<open>query.toLowerCase().split(' ').filter(term => term.length > 2)\<close>\<close>

definition searchTerms :: "string \<Rightarrow> string list" where
  "searchTerms query = filter (\<lambda>term. length term > 2) (split_on CHR '' '' (toLowerCase query))"

text \<open>The first \<open>forEach\<close> over the terms: each term is compiled, which can throw, and
  the number of its matches in the text is added to the score.\<close>

fun term_frequency :: "engine \<Rightarrow> string \<Rightarrow> string list \<Rightarrow> number \<Rightarrow> error + number" where
  "term_frequency ext text [] score = Inr score"
| "term_frequency ext text (term # terms) score =
     (case RegExp ext term of
        SyntaxError \<Rightarrow> Inl (InvalidRegExp term)
      | Compiled match \<Rightarrow> term_frequency ext text terms (num_add score (of_nat (match text))))"

text \<open>The second \<open>forEach\<close>: \<open>if (prevChunk.includes(term)) score += 0.5\<close>\<close>

fun context_window :: "string \<Rightarrow> string list \<Rightarrow> number \<Rightarrow> number" where
  "context_window prevChunk [] score = score"
| "context_window prevChunk (term # terms) score =
     context_window prevChunk terms
       (if str_includes prevChunk term then num_add score (1 / 2) else score)"

text \<open>
  The callback of \<open>this.chunks.map\<close>, for the chunk at position \<open>chunkIndex\<close>. The code
  finds the position with \<open>this.chunks.indexOf(chunk)\<close>, which compares objects by
  identity; \<open>addChunk\<close> pushes a fresh object each time, so the first position that holds
  the chunk is the position the callback is at.
\<close>

definition score_chunk ::
  "engine \<Rightarrow> IndexedChunk list \<Rightarrow> string list \<Rightarrow> nat \<Rightarrow> error + ScoredChunk" where
  "score_chunk ext store terms chunkIndex =
     (let chunk = store ! chunkIndex;
          text = toLowerCase (chunk_text chunk)
      in case term_frequency ext text terms (Num 0) of
           Inl e \<Rightarrow> Inl e
         | Inr score \<Rightarrow>
             (let uniqueTermsFound = length (filter (\<lambda>term. str_includes text term) terms);
                  score = num_mul score (num_div uniqueTermsFound (length terms));
                  score = (if chunkIndex > 0
                           then context_window (toLowerCase (chunk_text (store ! (chunkIndex - 1)))) terms score
                           else score)
              in Inr \<lparr>item_chunk = chunk_text chunk, item_page = chunk_page chunk, item_score = score\<rparr>))"

text \<open>\<open>map\<close> with a callback that can throw: the first exception ends it.\<close>

fun map_throw :: "('a \<Rightarrow> 'e + 'b) \<Rightarrow> 'a list \<Rightarrow> 'e + 'b list" where
  "map_throw f [] = Inr []"
| "map_throw f (x # xs) =
     (case f x of
        Inl e \<Rightarrow> Inl e
      | Inr y \<Rightarrow> (case map_throw f xs of Inl e \<Rightarrow> Inl e | Inr ys \<Rightarrow> Inr (y # ys)))"

definition scoredChunks :: "engine \<Rightarrow> IndexedChunk list \<Rightarrow> string list \<Rightarrow> error + ScoredChunk list" where
  "scoredChunks ext store terms = map_throw (score_chunk ext store terms) [0..<length store]"

text \<open>\<open>xs.slice(0, end)\<close>: a negative \<open>end\<close> counts from the end of the array.\<close>

definition slice_to :: "int \<Rightarrow> 'a list \<Rightarrow> 'a list" where
  "slice_to end xs = (if end < 0 then take (nat (int (length xs) + end)) xs else take (nat end) xs)"

text \<open>
  \<open>filter(score > 0)\<close>, \<open>sort((a, b) => b.score - a.score)\<close>, \<open>slice(0, topK)\<close>,
  \<open>map\<close>. \<open>Array.prototype.sort\<close> is stable, and after the filter every score is a
  number other than \<open>NaN\<close>: the result is the stable sort by descending score.
\<close>

definition search :: "engine \<Rightarrow> IndexedChunk list \<Rightarrow> string \<Rightarrow> int \<Rightarrow> error + SearchHit list" where
  "search ext store query topK =
     (case scoredChunks ext store (searchTerms query) of
        Inl e \<Rightarrow> Inl e
      | Inr scored \<Rightarrow>
          Inr (map (\<lambda>item. \<lparr>hit_text = item_chunk item, hit_page = item_page item, hit_score = item_score item\<rparr>)
                 (slice_to topK
                    (sort_key (\<lambda>item. - num_value (item_score item))
                       (filter (\<lambda>item. positive (item_score item)) scored)))))"

section \<open>The search endpoint\<close>

text \<open>A response is an error status with the \<open>error\<close> text of its body (the \<open>details\<close>
  field, which carries an exception's message, is left out), or a JSON body sent with
  status 200.\<close>

datatype 'a response = Status nat string | Json 'a

datatype search_body =
  NoResults
| Answer string "SearchHit list" nat "nat list" string

text \<open>
  The handler of \<open>POST /search\<close>. \<open>query\<close> is the field of the request body, \<open>None\<close>
  when it is absent. The call to the language model is the parameter \<open>gemini\<close>: it gets
  the search results and the query, from which the prompt is built, and answers with the
  generated text, or with \<open>None\<close> when the response is not OK or holds no text (an
  exception, caught by the handler). The fields of \<open>Answer\<close> are \<open>answer\<close>,
  \<open>relevantSections\<close> (the score under the name \<open>confidence\<close>), \<open>totalPages\<close>,
  \<open>pagesSearched\<close> and \<open>fileName\<close>.
\<close>

definition search_handler ::
  "engine \<Rightarrow> (SearchHit list \<Rightarrow> string \<Rightarrow> string option) \<Rightarrow> vectorStore \<Rightarrow> string option
     \<Rightarrow> search_body response" where
  "search_handler ext gemini store query =
     (if query = None \<or> query = Some [] then Status 400 ''No search query provided''
      else if length (chunks store) = 0 then Status 400 ''No manual content available''
      else (case search ext (chunks store) (the query) 5 of
              Inl e \<Rightarrow> Status 500 ''Failed to search the manual''
            | Inr searchResults \<Rightarrow>
                if length searchResults = 0 then Json NoResults
                else (case gemini searchResults (the query) of
                        None \<Rightarrow> Status 500 ''Failed to search the manual''
                      | Some answer \<Rightarrow>
                          Json (Answer (trim answer) searchResults (pageCount (metadata store))
                                  (new_Set (map hit_page searchResults))
                                  (currentFileName (metadata store))))))"

section \<open>The upload endpoint\<close>









text \<open>An uploaded file: its name, and the document that \<open>pdfjsLib.getDocument\<close> makes of
  its bytes: the text items of each page, or \<open>None\<close> when the bytes do not load (an
  exception).\<close>

record upload_file =
  originalname :: string
  document :: "string list list option"


section \<open>The summarisation endpoint\<close>

text \<open>\<open>splitTextIntoChunks\<close> hands the text to the library's
  \<open>RecursiveCharacterTextSplitter\<close>, a parameter here, with the two policy constants.\<close>

definition splitTextIntoChunks :: "(nat \<Rightarrow> nat \<Rightarrow> string \<Rightarrow> string list) \<Rightarrow> string \<Rightarrow> string list" where
  "splitTextIntoChunks splitter text = splitter CHUNK_SIZE CHUNK_OVERLAP text"

text \<open>\<open>fullText += pageText + '\n'\<close> over the pages; here the items of a page are joined
  and not collapsed.\<close>

definition fullText :: "string list list \<Rightarrow> string" where
  "fullText pages = concat (map (\<lambda>items. join '' '' items @ [CHR 0x0A]) pages)"

text \<open>The handler of \<open>POST /api/gemini\<close>, given the file and whether the API key is set.\<close>

definition summarize_handler ::
  "(nat \<Rightarrow> nat \<Rightarrow> string \<Rightarrow> string list) \<Rightarrow> client \<Rightarrow> bool \<Rightarrow> upload_file option
     \<Rightarrow> AggregateDocument response" where
  "summarize_handler splitter client apiKey file =
     (case file of
        None \<Rightarrow> Status 400 ''No PDF file uploaded''
      | Some f \<Rightarrow>
          if \<not> apiKey then Status 500 ''API key not configured''
          else (case document f of
                  None \<Rightarrow> Status 400 ''Failed to process PDF''
                | Some pages \<Rightarrow>
                    if length (trim (fullText pages)) = 0 then Status 400 ''No text content found in PDF''
                    else (case snd (processChunksInBatches client
                                      (splitTextIntoChunks splitter (fullText pages))) of
                            Inl reasons \<Rightarrow> Status 400 ''Failed to process PDF''
                          | Inr processedChunks \<Rightarrow> Json (mergeProcessedChunks processedChunks))))"

section \<open>The scoring rule as the specification words it\<close>

text \<open>
  The specification's reading of the score, for comparison with \<open>score_chunk\<close>: the query
  is lower-cased and cut at white space, tokens of length at most 2 are discarded; the
  score of a chunk is the sum of the occurrence counts of the tokens in the lower-cased
  text, times the fraction of the distinct tokens that are present among the tokens, plus
  a half for every token that appears in the chunk before.
\<close>

definition spec_tokens :: "string \<Rightarrow> string list" where
  "spec_tokens query =
     filter (\<lambda>t. length t > 2)
       (split_on CHR '' '' (map (\<lambda>c. if is_space c then CHR '' '' else c) (toLowerCase query)))"



section \<open>Helpers for the statements about search\<close>



text \<open>Where a closed statement needs an engine, this one stands in; the patterns of those
  statements are all decided by \<open>RegExp\<close> itself, which never consults it there.\<close>

definition unmodelled :: engine where
  "unmodelled pattern = SyntaxError"

section \<open>Properties of the merger\<close>

lemma foldl_Set_add: "foldl Set_add acc xs = acc @ first_seen (filter (\<lambda>x. x \<notin> set acc) xs)"
proof (induction xs arbitrary: acc)
  case Nil
  show ?case by simp
next
  case (Cons x xs)
  have eq: "filter (\<lambda>y. y \<notin> set (acc @ [x])) xs = filter (\<lambda>y. y \<noteq> x) (filter (\<lambda>y. y \<notin> set acc) xs)"
    by (induction xs) auto
  show ?case
  proof (cases "x \<in> set acc")
    case True
    then show ?thesis using Cons.IH [of acc] by (simp add: Set_add_def)
  next
    case False
    then show ?thesis using Cons.IH [of "acc @ [x]"] eq by (simp add: Set_add_def)
  qed
qed

lemma new_Set_first_seen: "new_Set xs = first_seen xs"
  by (simp add: new_Set_def foldl_Set_add)

lemma set_first_seen: "set (first_seen xs) = set xs"
proof (induction xs rule: first_seen.induct)
  case 1
  show ?case by simp
next
  case (2 x xs)
  then show ?case by auto
qed

lemma distinct_first_seen: "distinct (first_seen xs)"
proof (induction xs rule: first_seen.induct)
  case 1
  show ?case by simp
next
  case (2 x xs)
  then show ?case by (simp add: set_first_seen)
qed

lemma first_seen_distinct: "distinct xs \<Longrightarrow> first_seen xs = xs"
proof (induction xs)
  case Nil
  show ?case by simp
next
  case (Cons x xs)
  then have "filter (\<lambda>y. y \<noteq> x) xs = xs" by (auto intro: filter_True)
  with Cons show ?case by simp
qed

lemma first_seen_idem: "first_seen (first_seen xs) = first_seen xs"
  by (simp add: first_seen_distinct distinct_first_seen)

lemma count_list_distinct: "distinct xs \<Longrightarrow> x \<in> set xs \<Longrightarrow> count_list xs x = 1"
  by (induction xs) (auto simp: count_list_0_iff)

lemma count_first_seen: "x \<in> set xs \<Longrightarrow> count_list (first_seen xs) x = 1"
  by (simp add: count_list_distinct distinct_first_seen set_first_seen)

lemma foldl_merge_chunk:
  "foldl merge_chunk merged cs =
     merged\<lparr>prerequisites := prerequisites merged @ concat (map (entries ''key_points'') cs),
            warnings := warnings merged @ concat (map (entries ''warnings'') cs),
            steps := steps merged @ concat (map (entries ''steps'') cs)\<rparr>"
proof (induction cs arbitrary: merged)
  case Nil
  show ?case by simp
next
  case (Cons c cs)
  have p: "push_if arr (lookup c name) = arr @ entries name c" for arr name
    by (cases "lookup c name") (simp_all add: entries_def)
  have step: "merge_chunk merged c =
      merged\<lparr>prerequisites := prerequisites merged @ entries ''key_points'' c,
             warnings := warnings merged @ entries ''warnings'' c,
             steps := steps merged @ entries ''steps'' c\<rparr>"
    by (simp add: merge_chunk_def p)
  have "foldl merge_chunk merged (c # cs) = foldl merge_chunk (merge_chunk merged c) cs"
    by simp
  also have "\<dots> = (merge_chunk merged c)
      \<lparr>prerequisites := prerequisites (merge_chunk merged c) @ concat (map (entries ''key_points'') cs),
       warnings := warnings (merge_chunk merged c) @ concat (map (entries ''warnings'') cs),
       steps := steps (merge_chunk merged c) @ concat (map (entries ''steps'') cs)\<rparr>"
    by (rule Cons.IH)
  also have "\<dots> = merged\<lparr>prerequisites := prerequisites merged @ concat (map (entries ''key_points'') (c # cs)),
            warnings := warnings merged @ concat (map (entries ''warnings'') (c # cs)),
            steps := steps merged @ concat (map (entries ''steps'') (c # cs))\<rparr>"
    by (simp add: step)
  finally show ?case .
qed

lemma merge_fields:
  "mergeProcessedChunks cs =
     \<lparr>title = ''Technical Manual Summary'',
      prerequisites = first_seen (concat (map (entries ''key_points'') cs)),
      warnings = first_seen (concat (map (entries ''warnings'') cs)),
      steps = first_seen (concat (map (entries ''steps'') cs))\<rparr>"
  by (simp add: mergeProcessedChunks_def foldl_merge_chunk new_Set_first_seen Let_def)


text \<open>
  Claim C5. For every sequence of processed chunks, the merged document has the fixed
  title, and each of its three list fields is the concatenation of the corresponding
  entries of all chunks (\<open>key_points\<close> for \<open>prerequisites\<close>), in first-seen order
  and without duplicates, strings being compared by equality; the empty sequence gives
  the document with three empty fields.
\<close>

theorem merge_concatenates_deduplicates:
  "title (mergeProcessedChunks cs) = ''Technical Manual Summary''
   \<and> prerequisites (mergeProcessedChunks cs) = first_seen (concat (map (entries ''key_points'') cs))
   \<and> warnings (mergeProcessedChunks cs) = first_seen (concat (map (entries ''warnings'') cs))
   \<and> steps (mergeProcessedChunks cs) = first_seen (concat (map (entries ''steps'') cs))
   \<and> distinct (prerequisites (mergeProcessedChunks cs))
   \<and> distinct (warnings (mergeProcessedChunks cs))
   \<and> distinct (steps (mergeProcessedChunks cs))
   \<and> mergeProcessedChunks [] =
       \<lparr>title = ''Technical Manual Summary'', prerequisites = [], warnings = [], steps = []\<rparr>"
  by (simp add: merge_fields distinct_first_seen)

theorem merge_concatenates_deduplicates_witness:
  "prerequisites (mergeProcessedChunks
      [[(''key_points'', Arr [''Wear gloves'', ''Unplug'']), (''steps'', Arr [''Open lid''])],
       [(''key_points'', Arr [''Unplug'', ''wear gloves'']), (''warnings'', Arr [''Hot''])]])
     = [''Wear gloves'', ''Unplug'', ''wear gloves'']"
  using merge_concatenates_deduplicates
    [of "[[(''key_points'', Arr [''Wear gloves'', ''Unplug'']), (''steps'', Arr [''Open lid''])],
          [(''key_points'', Arr [''Unplug'', ''wear gloves'']), (''warnings'', Arr [''Hot''])]]"]
  by (simp add: entries_def lookup_def)

text \<open>
  Claim C6, as stated, fails: the merged document holds its first field under the name
  \<open>prerequisites\<close>, and the merge step reads \<open>key_points\<close>. Fed back as it is, the
  document loses its prerequisites.
\<close>

theorem remerge_counterexample:
  "prerequisites (mergeProcessedChunks [[(''key_points'', Arr [''Unplug''])]]) = [''Unplug'']
   \<and> prerequisites (mergeProcessedChunks
        [as_object (mergeProcessedChunks [[(''key_points'', Arr [''Unplug''])]])]) = []"
  by (simp add: merge_fields entries_def lookup_def as_object_def)

text \<open>
  Claim C6, amended. Re-merging the merged document leaves all three fields unchanged
  when its prerequisites are presented under the input name \<open>key_points\<close>; fed back as
  the object it is, its warnings and steps are unchanged and its prerequisites become
  empty. An entry that occurs in the chunks, however often, occurs exactly once in the
  corresponding field of the merged document.
\<close>

theorem remerge_idempotent:
  assumes "d = mergeProcessedChunks cs"
  shows "mergeProcessedChunks
           [[(''key_points'', Arr (prerequisites d)), (''warnings'', Arr (warnings d)),
             (''steps'', Arr (steps d))]] = d
         \<and> warnings (mergeProcessedChunks [as_object d]) = warnings d
         \<and> steps (mergeProcessedChunks [as_object d]) = steps d
         \<and> prerequisites (mergeProcessedChunks [as_object d]) = []
         \<and> (\<forall>s \<in> set (concat (map (entries ''key_points'') cs)). count_list (prerequisites d) s = 1)
         \<and> (\<forall>s \<in> set (concat (map (entries ''warnings'') cs)). count_list (warnings d) s = 1)
         \<and> (\<forall>s \<in> set (concat (map (entries ''steps'') cs)). count_list (steps d) s = 1)"
proof -
  have d: "d = \<lparr>title = ''Technical Manual Summary'',
      prerequisites = first_seen (concat (map (entries ''key_points'') cs)),
      warnings = first_seen (concat (map (entries ''warnings'') cs)),
      steps = first_seen (concat (map (entries ''steps'') cs))\<rparr>"
    using assms by (simp add: merge_fields)
  have again: "mergeProcessedChunks
           [[(''key_points'', Arr (prerequisites d)), (''warnings'', Arr (warnings d)),
             (''steps'', Arr (steps d))]] = d"
    by (simp add: merge_fields entries_def lookup_def d first_seen_idem)
  have object: "warnings (mergeProcessedChunks [as_object d]) = warnings d
         \<and> steps (mergeProcessedChunks [as_object d]) = steps d
         \<and> prerequisites (mergeProcessedChunks [as_object d]) = []"
    by (simp add: merge_fields entries_def lookup_def as_object_def d first_seen_idem)
  have once: "(\<forall>s \<in> set (concat (map (entries ''key_points'') cs)). count_list (prerequisites d) s = 1)
         \<and> (\<forall>s \<in> set (concat (map (entries ''warnings'') cs)). count_list (warnings d) s = 1)
         \<and> (\<forall>s \<in> set (concat (map (entries ''steps'') cs)). count_list (steps d) s = 1)"
    unfolding d by (simp add: count_first_seen del: set_concat)
  from again object once show ?thesis by blast
qed

theorem remerge_idempotent_witness:
  "\<lparr>title = ''Technical Manual Summary'', prerequisites = [''Unplug''], warnings = [''Hot''],
     steps = [''Open lid'']\<rparr>
     = mergeProcessedChunks
         [[(''key_points'', Arr [''Unplug'']), (''warnings'', Arr [''Hot''])],
          [(''key_points'', Arr [''Unplug'']), (''warnings'', Arr [''Hot'']), (''steps'', Arr [''Open lid''])]]
   \<and> mergeProcessedChunks
        [[(''key_points'', Arr [''Unplug'']), (''warnings'', Arr [''Hot'']), (''steps'', Arr [''Open lid''])]]
      = \<lparr>title = ''Technical Manual Summary'', prerequisites = [''Unplug''], warnings = [''Hot''],
         steps = [''Open lid'']\<rparr>
   \<and> count_list [''Unplug''] ''Unplug'' = 1"
  using remerge_idempotent
    [of "\<lparr>title = ''Technical Manual Summary'', prerequisites = [''Unplug''], warnings = [''Hot''],
           steps = [''Open lid'']\<rparr>"
        "[[(''key_points'', Arr [''Unplug'']), (''warnings'', Arr [''Hot''])],
          [(''key_points'', Arr [''Unplug'']), (''warnings'', Arr [''Hot'']), (''steps'', Arr [''Open lid''])]]"]
  by (simp add: merge_fields entries_def lookup_def)


section \<open>Properties of the orchestrator\<close>

declare attempt_loop.simps [simp del] batch_loop.simps [simp del]




lemma attempt_loop_3: "attempt_loop fetch (Suc (Suc (Suc 0))) = (3, Fulfilled None)"
  by (subst attempt_loop.simps) (simp add: MAX_RETRIES_def)

lemma attempt_loop_2:
  "attempt_loop fetch (Suc (Suc 0)) =
     (case fetch (Suc (Suc 0)) of
        RateLimited \<Rightarrow> (3, Fulfilled None)
      | Failure message \<Rightarrow> (3, Rejected (''Failed to process chunk after 3 attempts: '' @ message))
      | Parsed d \<Rightarrow> (3, Fulfilled (Some d)))"
  by (subst attempt_loop.simps) (simp add: MAX_RETRIES_def attempt_loop_3 split: reply.splits)

lemma attempt_loop_1:
  "attempt_loop fetch (Suc 0) =
     (case fetch (Suc 0) of
        RateLimited \<Rightarrow> attempt_loop fetch (Suc (Suc 0))
      | Failure message \<Rightarrow> attempt_loop fetch (Suc (Suc 0))
      | Parsed d \<Rightarrow> (2, Fulfilled (Some d)))"
  by (subst attempt_loop.simps) (simp add: MAX_RETRIES_def split: reply.splits)

lemma attempt_loop_0:
  "attempt_loop fetch 0 =
     (case fetch 0 of
        RateLimited \<Rightarrow> attempt_loop fetch (Suc 0)
      | Failure message \<Rightarrow> attempt_loop fetch (Suc 0)
      | Parsed d \<Rightarrow> (1, Fulfilled (Some d)))"
  by (subst attempt_loop.simps) (simp add: MAX_RETRIES_def split: reply.splits)

lemma attempt_loop_undefined:
  "snd (attempt_loop fetch 0) = Fulfilled None \<longleftrightarrow>
     fetch 2 = RateLimited \<and> (\<forall>d. fetch 0 \<noteq> Parsed d) \<and> (\<forall>d. fetch 1 \<noteq> Parsed d)"
  by (cases "fetch 0"; cases "fetch (Suc 0)"; cases "fetch (Suc (Suc 0))")
     (simp_all add: attempt_loop_0 attempt_loop_1 attempt_loop_2 numeral_2_eq_2)

lemma Promise_all_Inr:
  "Promise_all ps = Inr vs \<longleftrightarrow> (\<forall>p \<in> set ps. \<exists>v. p = Fulfilled v) \<and> vs = [v. Fulfilled v \<leftarrow> ps]"
proof -
  have "[r. Rejected r \<leftarrow> ps] = [] \<longleftrightarrow> (\<forall>p \<in> set ps. \<exists>v. p = Fulfilled v)"
    by (induction ps) (auto split: promise.splits)
  then show ?thesis by (auto simp: Promise_all_def)
qed

lemma Promise_all_Inl:
  "Promise_all ps = Inl reasons \<Longrightarrow> reasons \<noteq> [] \<and> set reasons = {r. Rejected r \<in> set ps}"
proof -
  have "set [r. Rejected r \<leftarrow> ps] = {r. Rejected r \<in> set ps}"
    by (induction ps) (auto split: promise.splits)
  moreover assume "Promise_all ps = Inl reasons"
  ultimately show ?thesis by (auto simp: Promise_all_def split: if_splits)
qed

lemma totalBatches_less: "batchIndex < totalBatches cs \<longleftrightarrow> batchIndex * 2 < length cs"
  by (auto simp: totalBatches_def BATCH_SIZE_def)

lemma batch_slice:
  "slice (batchIndex * BATCH_SIZE) (min (batchIndex * BATCH_SIZE + BATCH_SIZE) (length cs)) cs
     = take 2 (drop (batchIndex * 2) cs)"
  by (simp add: slice_def BATCH_SIZE_def min_def)

lemma enumerate_offset:
  "map (\<lambda>(index, chunk). f (start + index) chunk) (enumerate k xs)
     = map (\<lambda>(i, c). f i c) (enumerate (start + k) xs)"
  by (induction xs arbitrary: k) simp_all

lemma drop_enumerate_0: "drop m (enumerate 0 xs) = enumerate m (drop m xs)"
proof (cases "m \<le> length xs")
  case True
  then show ?thesis by (simp add: enumerate_eq_zip drop_zip)
next
  case False
  then show ?thesis by simp
qed

lemma take_enumerate: "take k (enumerate n xs) = enumerate n (take k xs)"
  by (induction xs arbitrary: k n) (simp_all add: take_Cons split: nat.splits)

lemma batchPromises_eq:
  "batchPromises client (batchIndex * BATCH_SIZE) (take 2 (drop (batchIndex * 2) cs))
     = take 2 (drop (batchIndex * 2) (chunk_promises client cs))"
proof -
  have all: "chunk_promises client cs = map (\<lambda>(i, c). attempt_loop (client i c) 0) (enumerate 0 cs)"
    by (simp add: chunk_promises_def batchPromises_def)
  have "batchPromises client (batchIndex * BATCH_SIZE) (take 2 (drop (batchIndex * 2) cs))
      = map (\<lambda>(i, c). attempt_loop (client i c) 0)
          (enumerate (batchIndex * 2) (take 2 (drop (batchIndex * 2) cs)))"
    using enumerate_offset [of "\<lambda>i c. attempt_loop (client i c) 0" "batchIndex * 2" 0]
    by (simp add: batchPromises_def BATCH_SIZE_def)
  then show ?thesis
    by (simp add: all take_map drop_map drop_enumerate_0 take_enumerate)
qed

lemma length_chunk_promises: "length (chunk_promises client cs) = length cs"
  by (simp add: chunk_promises_def batchPromises_def)


lemma filter_Boolean_append: "filter_Boolean (xs @ ys) = filter_Boolean xs @ filter_Boolean ys"
  by (simp add: filter_Boolean_def)

lemma batch_loop_step:
  "batch_loop client cs batchIndex processedChunks calls =
     (if batchIndex * 2 < length cs then
        (let promises = take 2 (drop (batchIndex * 2) (chunk_promises client cs))
         in case Promise_all (map snd promises) of
              Inl reasons \<Rightarrow> (calls @ map fst promises, Inl reasons)
            | Inr batchResults \<Rightarrow>
                batch_loop client cs (batchIndex + 1)
                  (processedChunks @ filter_Boolean batchResults) (calls @ map fst promises))
      else (calls, Inr processedChunks))"
  by (subst batch_loop.simps)
     (simp only: totalBatches_less batch_slice batchPromises_eq Let_def)

lemma batch_loop_result:
  "batch_loop client cs batchIndex processedChunks calls = (calls', res) \<Longrightarrow>
     (case res of
        Inr rs \<Rightarrow>
          calls' = calls @ map fst (drop (batchIndex * 2) (chunk_promises client cs))
          \<and> (\<forall>p \<in> set (drop (batchIndex * 2) (chunk_promises client cs)). \<exists>v. snd p = Fulfilled v)
          \<and> rs = processedChunks @ filter_Boolean [v. Fulfilled v \<leftarrow> map snd (drop (batchIndex * 2) (chunk_promises client cs))]
      | Inl reasons \<Rightarrow>
          reasons \<noteq> [] \<and> set reasons \<subseteq> {r. Rejected r \<in> snd ` set (chunk_promises client cs)}
          \<and> (\<exists>k. calls' = calls @ map fst (take k (drop (batchIndex * 2) (chunk_promises client cs)))))"
proof (induction client cs batchIndex processedChunks calls rule: batch_loop.induct)
  case (1 client cs batchIndex processedChunks calls)
  define qs where "qs = chunk_promises client cs"
  define bp where "bp = take 2 (drop (batchIndex * 2) qs)"
  have d: "drop ((batchIndex + 1) * 2) qs = drop 2 (drop (batchIndex * 2) qs)"
    by (simp add: add.commute)
  have split: "drop (batchIndex * 2) qs = bp @ drop ((batchIndex + 1) * 2) qs"
    unfolding bp_def d by (rule append_take_drop_id [symmetric])
  note step = batch_loop_step [of client cs batchIndex processedChunks calls]
  show ?case
  proof (cases "batchIndex * 2 < length cs")
    case False
    then have "drop (batchIndex * 2) qs = []" by (simp add: qs_def length_chunk_promises)
    moreover from False "1.prems" have "calls' = calls" "res = Inr processedChunks"
      by (simp_all add: step)
    ultimately show ?thesis by (simp add: qs_def filter_Boolean_def)
  next
    case True
    show ?thesis
    proof (cases "Promise_all (map snd bp)")
      case (Inl reasons)
      with True "1.prems" have res: "calls' = calls @ map fst bp" "res = Inl reasons"
        by (simp_all add: step bp_def qs_def)
      from Inl have "reasons \<noteq> []" "set reasons = {r. Rejected r \<in> set (map snd bp)}"
        using Promise_all_Inl by blast+
      moreover have "set bp \<subseteq> set qs"
        unfolding bp_def by (meson set_take_subset set_drop_subset subset_trans)
      moreover have "bp = take 2 (drop (batchIndex * 2) qs)" by (simp add: bp_def)
      ultimately show ?thesis
        using res by (auto simp: qs_def [symmetric])
    next
      case (Inr batchResults)
      with True "1.prems" have rec:
        "batch_loop client cs (batchIndex + 1) (processedChunks @ filter_Boolean batchResults)
           (calls @ map fst bp) = (calls', res)"
        by (simp add: step bp_def qs_def)
      from Inr have ful: "\<forall>p \<in> set (map snd bp). \<exists>v. p = Fulfilled v"
        and vals: "batchResults = [v. Fulfilled v \<leftarrow> map snd bp]"
        using Promise_all_Inr by blast+
      have guard: "batchIndex < totalBatches cs" using True by (simp add: totalBatches_less)
      have bp_eq: "bp = batchPromises client (batchIndex * BATCH_SIZE)
          (slice (batchIndex * BATCH_SIZE) (min (batchIndex * BATCH_SIZE + BATCH_SIZE) (length cs)) cs)"
        by (simp only: batch_slice batchPromises_eq bp_def qs_def)
      have IH: "case res of
          Inr rs \<Rightarrow>
            calls' = (calls @ map fst bp) @ map fst (drop ((batchIndex + 1) * 2) qs)
            \<and> (\<forall>p \<in> set (drop ((batchIndex + 1) * 2) qs). \<exists>v. snd p = Fulfilled v)
            \<and> rs = (processedChunks @ filter_Boolean batchResults)
                  @ filter_Boolean [v. Fulfilled v \<leftarrow> map snd (drop ((batchIndex + 1) * 2) qs)]
        | Inl reasons \<Rightarrow>
            reasons \<noteq> [] \<and> set reasons \<subseteq> {r. Rejected r \<in> snd ` set qs}
            \<and> (\<exists>k. calls' = (calls @ map fst bp) @ map fst (take k (drop ((batchIndex + 1) * 2) qs)))"
        unfolding qs_def
        using "1.IH" [OF guard refl refl refl bp_eq _ rec] Inr bp_eq by simp
      show ?thesis
      proof (cases res)
        case (Inr rs)
        with IH ful vals show ?thesis
          unfolding qs_def [symmetric] split
          by (auto simp: filter_Boolean_append)
      next
        case (Inl reasons)
        with IH obtain k where k: "calls' = (calls @ map fst bp) @ map fst (take k (drop ((batchIndex + 1) * 2) qs))"
          and r: "reasons \<noteq> []" "set reasons \<subseteq> {r. Rejected r \<in> snd ` set qs}"
          by auto
        have "take (2 + k) (drop (batchIndex * 2) qs) = bp @ take k (drop ((batchIndex + 1) * 2) qs)"
          unfolding bp_def d by (rule take_add)
        with k have "calls' = calls @ map fst (take (2 + k) (drop (batchIndex * 2) qs))" by simp
        with r Inl show ?thesis unfolding qs_def [symmetric] by auto
      qed
    qed
  qed
qed




lemma process_returns:
  assumes "processChunksInBatches client cs = (calls, Inr rs)"
  shows "calls = map fst (chunk_promises client cs)"
    and "\<forall>p \<in> set (chunk_promises client cs). \<exists>v. snd p = Fulfilled v"
    and "rs = filter_Boolean [v. Fulfilled v \<leftarrow> map snd (chunk_promises client cs)]"
  using batch_loop_result [of client cs 0 "[]" "[]" calls "Inr rs"] assms
  by (simp_all add: processChunksInBatches_def)



text \<open>What does hold of the order: when the call returns and no chunk was dropped (every
  chunk's promise fulfilled with an object), there is one result for every chunk and the
  result at each position is that of the chunk at the same position.\<close>

lemma all_objects_kept:
  "\<forall>p \<in> set ps. \<exists>obj. p = Fulfilled (Some (Obj obj)) \<Longrightarrow>
     map (\<lambda>obj. Fulfilled (Some (Obj obj))) (filter_Boolean [v. Fulfilled v \<leftarrow> ps]) = ps"
  by (induction ps) (auto simp: filter_Boolean_def)

lemma process_results_in_order:
  assumes "processChunksInBatches client cs = (calls, Inr rs)"
    and "\<forall>i < length cs. \<exists>obj. snd (chunk_promises client cs ! i) = Fulfilled (Some (Obj obj))"
  shows "length rs = length cs"
    and "\<forall>i < length cs. snd (chunk_promises client cs ! i) = Fulfilled (Some (Obj (rs ! i)))"
proof -
  let ?ps = "map snd (chunk_promises client cs)"
  from assms(2) have "\<forall>p \<in> set ?ps. \<exists>obj. p = Fulfilled (Some (Obj obj))"
    by (fastforce simp: in_set_conv_nth length_chunk_promises)
  then have "map (\<lambda>obj. Fulfilled (Some (Obj obj))) (filter_Boolean [v. Fulfilled v \<leftarrow> ?ps]) = ?ps"
    by (rule all_objects_kept)
  with process_returns(3) [OF assms(1)] have eq: "map (\<lambda>obj. Fulfilled (Some (Obj obj))) rs = ?ps"
    by simp
  from arg_cong [OF eq, of length] show len: "length rs = length cs"
    by (simp add: length_chunk_promises)
  show "\<forall>i < length cs. snd (chunk_promises client cs ! i) = Fulfilled (Some (Obj (rs ! i)))"
  proof (intro allI impI)
    fix i assume i: "i < length cs"
    from arg_cong [OF eq, of "\<lambda>xs. xs ! i"] i len
    show "snd (chunk_promises client cs ! i) = Fulfilled (Some (Obj (rs ! i)))"
      by (simp add: length_chunk_promises)
  qed
qed

text \<open>
  Claim C1 says that a call either fails or returns one extraction result for every
  chunk, so that a chunk whose attempts all end rate-limited is not dropped silently.
  The code at such an input: one chunk, every call answered with status 429. Three calls
  are made, the loop ends by its condition, the promise fulfils with \<open>undefined\<close>,
  \<open>filter(Boolean)\<close> removes it, and the call returns the empty array without an error.
\<close>

theorem rate_limited_chunk_dropped:
  "processChunksInBatches (\<lambda>i c k. RateLimited) [''Step 1: open the lid.''] = ([3], Inr [])"
  by code_simp

text \<open>
  Claim C2 says that the i-th result of a successful call belongs to the i-th chunk. The
  code at an input with a dropped chunk: two chunks, the first always answered with
  status 429, the second extracted at once. The call succeeds with one result, and the
  result at position 0 is the extraction of the chunk at position 1.
\<close>

theorem dropped_chunk_shifts_results:
  "processChunksInBatches
     (\<lambda>i c k. if i = 0 then RateLimited else Parsed (Obj [(''steps'', Arr [c])]))
     [''Open the lid.'', ''Close the lid.'']
   = ([3, 1], Inr [[(''steps'', Arr [''Close the lid.''])]])"
  by code_simp


section \<open>Properties of the upload endpoint\<close>











section \<open>Properties of the search\<close>


lemma term_frequency_Inl:
  "t \<in> set terms \<Longrightarrow> RegExp ext t = SyntaxError \<Longrightarrow>
     \<exists>t' \<in> set terms. RegExp ext t' = SyntaxError \<and> term_frequency ext text terms score = Inl (InvalidRegExp t')"
proof (induction terms arbitrary: score)
  case Nil
  then show ?case by simp
next
  case (Cons u terms)
  show ?case
  proof (cases "RegExp ext u")
    case SyntaxError
    then show ?thesis by auto
  next
    case (Compiled m)
    with Cons.prems have "t \<in> set terms" by auto
    from Cons.IH [OF this Cons.prems(2), of "num_add score (of_nat (m text))"] Compiled
    show ?thesis by auto
  qed
qed



lemma context_window_NaN: "context_window prev terms NaN = NaN"
  by (induction terms) simp_all


lemma map_throw_Inl: "map_throw f xs = Inl e \<Longrightarrow> \<exists>x \<in> set xs. f x = Inl e"
  by (induction xs) (auto split: sum.splits)



lemma map_throw_all: "(\<forall>x \<in> set xs. f x = Inr (g x)) \<Longrightarrow> map_throw f xs = Inr (map g xs)"
  by (induction xs) simp_all


lemma score_chunk_no_terms:
  "score_chunk ext store [] i =
     Inr \<lparr>item_chunk = chunk_text (store ! i), item_page = chunk_page (store ! i), item_score = NaN\<rparr>"
  by (simp add: score_chunk_def Let_def num_div_def)

lemma scoredChunks_no_terms:
  "scoredChunks ext store [] =
     Inr (map (\<lambda>c. \<lparr>item_chunk = chunk_text c, item_page = chunk_page c, item_score = NaN\<rparr>) store)"
proof -
  have "map_throw (score_chunk ext store []) [0..<length store]
      = Inr (map (\<lambda>i. \<lparr>item_chunk = chunk_text (store ! i), item_page = chunk_page (store ! i),
                         item_score = NaN\<rparr>) [0..<length store])"
    by (rule map_throw_all) (simp add: score_chunk_no_terms)
  also have "map (\<lambda>i. \<lparr>item_chunk = chunk_text (store ! i), item_page = chunk_page (store ! i),
                         item_score = NaN\<rparr>) [0..<length store]
      = map (\<lambda>c. \<lparr>item_chunk = chunk_text c, item_page = chunk_page c, item_score = NaN\<rparr>) store"
    by (rule nth_equalityI) simp_all
  finally show ?thesis by (simp add: scoredChunks_def)
qed





















lemma repeated_quantifier_has: "repeated_quantifier p \<Longrightarrow> \<exists>c \<in> set p. c \<in> set ''*+?''"
  by (induction p rule: repeated_quantifier.induct) auto

lemma nothing_to_repeat_not_literal: "nothing_to_repeat p \<Longrightarrow> \<not> literal_pattern p"
proof -
  assume "nothing_to_repeat p"
  then have "\<exists>c \<in> set p. c \<in> set ''*+?''"
    using repeated_quantifier_has [of p]
    by (auto simp: nothing_to_repeat_def split: list.splits)
  then show ?thesis
    by (auto simp: literal_pattern_def syntax_characters_def)
qed

lemma scoredChunks_throws:
  assumes "store \<noteq> []" and "t \<in> set terms" and "RegExp ext t = SyntaxError"
  shows "\<exists>t' \<in> set terms. scoredChunks ext store terms = Inl (InvalidRegExp t')"
proof -
  from term_frequency_Inl [OF assms(2,3)] obtain t' where t': "t' \<in> set terms"
    and tf: "term_frequency ext (toLowerCase (chunk_text (store ! 0))) terms (Num 0) = Inl (InvalidRegExp t')"
    by blast
  then have "score_chunk ext store terms 0 = Inl (InvalidRegExp t')"
    by (simp add: score_chunk_def Let_def)
  moreover from assms(1) have "[0..<length store] = 0 # [1..<length store]"
    by (simp add: upt_conv_Cons)
  ultimately have "scoredChunks ext store terms = Inl (InvalidRegExp t')"
    by (simp add: scoredChunks_def)
  with t' show ?thesis by blast
qed

text \<open>
  Claim C9. Search is not total over the queries: over any store that is not empty, a
  query with a surviving term that has nothing to repeat, such as \<open>c++\<close>, makes search
  throw instead of returning a hit list, because the term is compiled as a regular
  expression, and the search endpoint answers the query with status 500.
\<close>

theorem search_throws_on_invalid_pattern:
  assumes "store \<noteq> []" and "t \<in> set (searchTerms query)" and "nothing_to_repeat t"
  shows "(\<exists>t' \<in> set (searchTerms query). search ext store query topK = Inl (InvalidRegExp t'))
         \<and> (chunks vs = store \<longrightarrow>
              search_handler ext gemini vs (Some query) = Status 500 ''Failed to search the manual'')"
proof -
  from assms(3) have "RegExp ext t = SyntaxError"
    by (simp add: RegExp_def nothing_to_repeat_not_literal)
  from scoredChunks_throws [OF assms(1,2) this] obtain t' where t': "t' \<in> set (searchTerms query)"
    and thrown: "scoredChunks ext store (searchTerms query) = Inl (InvalidRegExp t')"
    by blast
  then have s: "search ext store query k = Inl (InvalidRegExp t')" for k
    by (simp add: search_def)
  have "searchTerms [] = []" by (simp add: searchTerms_def toLowerCase_def)
  with assms(2) have q: "query \<noteq> []" by auto
  have "chunks vs = store \<longrightarrow>
      search_handler ext gemini vs (Some query) = Status 500 ''Failed to search the manual''"
    using assms(1) q s [of 5] by (simp add: search_handler_def)
  with t' s [of topK] show ?thesis by blast
qed

theorem search_throws_on_invalid_pattern_witness:
  "[\<lparr>chunk_text = ''Replace the filter'', chunk_page = 1, chunk_embedding = []\<rparr>] \<noteq> []
   \<and> ''c++'' \<in> set (searchTerms ''c++'')
   \<and> nothing_to_repeat ''c++''
   \<and> search unmodelled [\<lparr>chunk_text = ''Replace the filter'', chunk_page = 1, chunk_embedding = []\<rparr>] ''c++'' 5
       = Inl (InvalidRegExp ''c++'')
   \<and> search_handler unmodelled (\<lambda>results query. None)
        \<lparr>chunks = [\<lparr>chunk_text = ''Replace the filter'', chunk_page = 1, chunk_embedding = []\<rparr>],
         embeddings = [[]],
         metadata = \<lparr>currentFileName = ''manual.pdf'', pageCount = 1, totalChunks = 1\<rparr>\<rparr>
        (Some ''c++'') = Status 500 ''Failed to search the manual''"
proof -
  have h1: "[\<lparr>chunk_text = ''Replace the filter'', chunk_page = 1, chunk_embedding = []\<rparr>] \<noteq> []"
    by simp
  have terms: "searchTerms ''c++'' = [''c++'']" by code_simp
  have h2: "''c++'' \<in> set (searchTerms ''c++'')" unfolding terms by simp
  have h3: "nothing_to_repeat ''c++''" by (simp add: nothing_to_repeat_def)
  from search_throws_on_invalid_pattern [OF h1 h2 h3, of unmodelled 5
      "\<lparr>chunks = [\<lparr>chunk_text = ''Replace the filter'', chunk_page = 1, chunk_embedding = []\<rparr>],
         embeddings = [[]],
         metadata = \<lparr>currentFileName = ''manual.pdf'', pageCount = 1, totalChunks = 1\<rparr>\<rparr>"
      "\<lambda>results query. None"]
  show ?thesis using h1 h2 h3 unfolding terms by simp
qed

text \<open>
  Claim C10, as stated, fails: it takes the tokens to be separated by white space. In
  the query \<open>+<TAB>b\<close> every token between white space has length at most 2, yet the
  code, which cuts the query at space characters only, has the one term \<open>+<TAB>b\<close> of
  length 3, and compiling it throws.
\<close>

theorem search_without_terms_counterexample:
  "spec_tokens (''+'' @ [CHR 0x09] @ ''b'') = []
   \<and> search unmodelled [\<lparr>chunk_text = ''Replace the filter'', chunk_page = 1, chunk_embedding = []\<rparr>]
        (''+'' @ [CHR 0x09] @ ''b'') 5
      = Inl (InvalidRegExp (''+'' @ [CHR 0x09] @ ''b''))"
  by code_simp

text \<open>
  Claim C10, amended. For every store, a query in which every token between space
  characters has length at most 2 (the empty query among them) has no surviving term;
  the coverage fraction is then 0/0, every chunk scores \<open>NaN\<close>, no chunk passes the
  filter \<open>score > 0\<close>, and search returns the empty list without an error.
\<close>

theorem search_without_terms:
  assumes "\<forall>t \<in> set (split_on CHR '' '' (toLowerCase query)). length t \<le> 2"
  shows "searchTerms query = []
         \<and> scoredChunks ext store (searchTerms query)
             = Inr (map (\<lambda>c. \<lparr>item_chunk = chunk_text c, item_page = chunk_page c, item_score = NaN\<rparr>) store)
         \<and> search ext store query topK = Inr []"
proof -
  from assms have terms: "searchTerms query = []"
    by (auto simp: searchTerms_def filter_empty_conv)
  have scored: "scoredChunks ext store (searchTerms query)
             = Inr (map (\<lambda>c. \<lparr>item_chunk = chunk_text c, item_page = chunk_page c, item_score = NaN\<rparr>) store)"
    unfolding terms by (rule scoredChunks_no_terms)
  have "filter (\<lambda>item. positive (item_score item))
          (map (\<lambda>c. \<lparr>item_chunk = chunk_text c, item_page = chunk_page c, item_score = NaN\<rparr>) store) = []"
    by (simp add: filter_empty_conv)
  then have "search ext store query topK = Inr []"
    by (simp add: search_def scored slice_to_def)
  with terms scored show ?thesis by simp
qed

theorem search_without_terms_witness:
  "split_on CHR '' '' (toLowerCase ''Is it on'') = [''is'', ''it'', ''on'']
   \<and> split_on CHR '' '' (toLowerCase []) = [[]]
   \<and> search unmodelled [\<lparr>chunk_text = ''Is it on'', chunk_page = 1, chunk_embedding = []\<rparr>] ''Is it on'' 5 = Inr []
   \<and> search unmodelled [\<lparr>chunk_text = ''Is it on'', chunk_page = 1, chunk_embedding = []\<rparr>] [] 5 = Inr []"
proof -
  have t1: "split_on CHR '' '' (toLowerCase ''Is it on'') = [''is'', ''it'', ''on'']"
    by code_simp
  have t2: "split_on CHR '' '' (toLowerCase []) = [[]]"
    by code_simp
  have h1: "\<forall>t \<in> set (split_on CHR '' '' (toLowerCase ''Is it on'')). length t \<le> 2"
    unfolding t1 by simp
  have h2: "\<forall>t \<in> set (split_on CHR '' '' (toLowerCase [])). length t \<le> 2"
    unfolding t2 by simp
  from search_without_terms [OF h1] search_without_terms [OF h2] t1 t2
  show ?thesis by blast
qed


end
